theory Spec2Isabelle
  imports Main "HOL-Library.Word"
begin

unbundle bit_operations_syntax

section \<open>Bytes, errors and outcomes\<close>

type_synonym byte = "8 word"

text \<open>
  The error values of the package.  \<open>errReportBlockLength\<close>, \<open>errIncorrectNumReports\<close> and
  \<open>errMetricBlockLength\<close> are declared in rfc8888.go; \<open>errPacketTooShort\<close> and
  \<open>errTooManyReports\<close> are used there; the others are the error kinds of the header and
  of the Application-Defined packet (\<open>errInvalidLength\<close> is the invalid-length-field error,
  \<open>errAppDefinedInvalidLength\<close> in the tests).  \<open>errRange\<close> is the range error of the
  bit-field packer.
\<close>

datatype error =
    errPacketTooShort
  | errTooManyReports
  | errReportBlockLength
  | errIncorrectNumReports
  | errMetricBlockLength
  | errInvalidHeader
  | errInvalidLength
  | errAppDefinedDataTooLarge
  | errAppDefinedInvalidName
  | errWrongPadding
  | errRange

text \<open>
  A call either returns a value, returns an error, or panics at run time (a slice
  expression or an index out of range).  \<open>Inl (Err e)\<close> is a returned error, \<open>Inl Panic\<close>
  the run-time panic.
\<close>

datatype failure = Err error | Panic

section \<open>encoding/binary, big endian\<close>

definition Uint16 :: "byte list \<Rightarrow> 16 word" where
  "Uint16 b = push_bit 8 (ucast (b ! 0)) OR ucast (b ! 1)"

definition Uint32 :: "byte list \<Rightarrow> 32 word" where
  "Uint32 b = push_bit 24 (ucast (b ! 0)) OR push_bit 16 (ucast (b ! 1))
                OR push_bit 8 (ucast (b ! 2)) OR ucast (b ! 3)"

definition bytes16 :: "16 word \<Rightarrow> byte list" where
  "bytes16 v = [ucast (drop_bit 8 v), ucast v]"

definition bytes32 :: "32 word \<Rightarrow> byte list" where
  "bytes32 v = [ucast (drop_bit 24 v), ucast (drop_bit 16 v), ucast (drop_bit 8 v), ucast v]"

section \<open>The bit-field packer\<close>

text \<open>
  Modelled from the spec: \<open>setNBitsOfUint16\<close> is called by \<open>CCFeedbackMetricBlock.marshal\<close>
  as \<open>setNBitsOfUint16(src, size, startIndex, val)\<close> but its body is not among the source
  files.  The specification (section 4.1) gives its contract: it writes \<open>val\<close>, which must
  fit in \<open>size\<close> bits or else the call fails with a range error, into the span of \<open>size\<close>
  bits that starts \<open>startIndex\<close> bits from the most significant bit of a 16-bit word, and
  leaves the other bits untouched.  A span that does not lie inside the 16 bits is no span
  of the word and is rejected in the same way; no caller asks for one.
\<close>

definition setNBitsOfUint16 :: "16 word \<Rightarrow> nat \<Rightarrow> nat \<Rightarrow> 16 word \<Rightarrow> error + 16 word" where
  "setNBitsOfUint16 src sz startIndex val =
     (if 16 < startIndex + sz \<or> 2 ^ sz \<le> unat val then Inl errRange
      else let shift = 16 - sz - startIndex;
               span = push_bit shift (mask sz)
           in Inr ((src AND NOT span) OR push_bit shift val))"

section \<open>CCFeedbackMetricBlock\<close>

text \<open>\<open>ECN\<close> is a \<open>uint8\<close> with four named values; any byte can be stored in the field.\<close>

type_synonym ECN = "8 word"

definition ECNNonECT :: ECN where "ECNNonECT = 0"
definition ECNECT1 :: ECN where "ECNECT1 = 1"
definition ECNECT0 :: ECN where "ECNECT0 = 2"
definition ECNCE :: ECN where "ECNCE = 3"

record CCFeedbackMetricBlock =
  Received :: bool
  ECN :: ECN
  ArrivalTimeOffset :: "16 word"

definition metricBlockLength :: nat where
  "metricBlockLength = 2"

definition CCFeedbackMetricBlock_marshal :: "CCFeedbackMetricBlock \<Rightarrow> failure + byte list" where
  "CCFeedbackMetricBlock_marshal b =
     (let r = (if Received b then 1 else 0) in
      case setNBitsOfUint16 0 1 0 r of
        Inl e \<Rightarrow> Inl (Err e)
      | Inr dst \<Rightarrow>
          (case setNBitsOfUint16 dst 2 1 (ucast (ECN b)) of
             Inl e \<Rightarrow> Inl (Err e)
           | Inr dst \<Rightarrow>
               (case setNBitsOfUint16 dst 13 3 (ArrivalTimeOffset b) of
                  Inl e \<Rightarrow> Inl (Err e)
                | Inr dst \<Rightarrow> Inr (bytes16 dst))))"

definition CCFeedbackMetricBlock_unmarshal :: "byte list \<Rightarrow> failure + CCFeedbackMetricBlock" where
  "CCFeedbackMetricBlock_unmarshal rawPacket =
     (if length rawPacket \<noteq> metricBlockLength then Inl (Err errMetricBlockLength)
      else if \<not> ((rawPacket ! 0) AND 0x80 \<noteq> 0)
      then Inr \<lparr>Received = False, ECN = ECNNonECT, ArrivalTimeOffset = 0\<rparr>
      else Inr \<lparr>Received = True,
                ECN = drop_bit 5 (rawPacket ! 0) AND 0x03,
                ArrivalTimeOffset = Uint16 rawPacket AND 0x1FFF\<rparr>)"


text \<open>
  The 16-bit word that the three packer calls of \<open>CCFeedbackMetricBlock.marshal\<close> build
  when none of them fails.
\<close>

definition packed :: "bool \<Rightarrow> ECN \<Rightarrow> 16 word \<Rightarrow> 16 word" where
  "packed r e a =
     ((push_bit 15 (if r then 1 else 0) AND NOT (push_bit 13 (mask 2))) OR push_bit 13 (ucast e))
       AND NOT (mask 13) OR a"

section \<open>Slices and buffers\<close>

text \<open>
  A Go slice has a length and a capacity.  \<open>s[lo:]\<close> needs \<open>lo \<le> len(s)\<close>, but the
  two-index expression \<open>s[lo:hi]\<close> is checked against the capacity: it needs
  \<open>lo \<le> hi \<le> cap(s)\<close> and may reveal bytes beyond the length.  A slice that is decoded
  is therefore a pair: the bytes below its length, and the bytes from its length to its
  capacity.  Buffers made by \<open>make\<close> have capacity equal to length and are plain lists.
\<close>

type_synonym slice = "byte list \<times> byte list"

definition slice_from :: "slice \<Rightarrow> nat \<Rightarrow> failure + slice" where
  "slice_from s lo =
     (if lo \<le> length (fst s) then Inr (drop lo (fst s), snd s) else Inl Panic)"

definition slice_range :: "slice \<Rightarrow> nat \<Rightarrow> nat \<Rightarrow> failure + slice" where
  "slice_range s lo hi =
     (if lo \<le> hi \<and> hi \<le> length (fst s) + length (snd s)
      then Inr (take (hi - lo) (drop lo (fst s @ snd s)), drop hi (fst s @ snd s))
      else Inl Panic)"

text \<open>\<open>copy(buf[off:], src)\<close>: panics when \<open>off\<close> is beyond the buffer, copies what fits.\<close>

definition copy_at :: "byte list \<Rightarrow> nat \<Rightarrow> byte list \<Rightarrow> failure + byte list" where
  "copy_at buf off src =
     (if off \<le> length buf
      then Inr (take off buf @ take (length buf - off) src @ drop (off + length src) buf)
      else Inl Panic)"

text \<open>\<open>copy(buf[:n], src)\<close> on a buffer whose capacity is its length.\<close>

definition copy_prefix :: "byte list \<Rightarrow> nat \<Rightarrow> byte list \<Rightarrow> failure + byte list" where
  "copy_prefix buf n src =
     (if n \<le> length buf
      then Inr (take (min n (length src)) src @ drop (min n (length src)) buf)
      else Inl Panic)"

text \<open>
  \<open>binary.BigEndian.PutUint16(buf[off:], v)\<close> and \<open>PutUint32\<close>: the slice expression panics
  when \<open>off\<close> is beyond the buffer, the write when fewer than 2 (4) bytes are left.
\<close>

definition PutUint16_at :: "byte list \<Rightarrow> nat \<Rightarrow> 16 word \<Rightarrow> failure + byte list" where
  "PutUint16_at buf off v =
     (if off + 2 \<le> length buf then Inr (take off buf @ bytes16 v @ drop (off + 2) buf)
      else Inl Panic)"

definition PutUint32_at :: "byte list \<Rightarrow> nat \<Rightarrow> 32 word \<Rightarrow> failure + byte list" where
  "PutUint32_at buf off v =
     (if off + 4 \<le> length buf then Inr (take off buf @ bytes32 v @ drop (off + 4) buf)
      else Inl Panic)"

text \<open>\<open>binary.BigEndian.Uint32(raw[off:])\<close>, with the same two ways to panic.\<close>

definition Uint32_at :: "byte list \<Rightarrow> nat \<Rightarrow> failure + 32 word" where
  "Uint32_at raw off =
     (if off + 4 \<le> length raw then Inr (Uint32 (drop off raw)) else Inl Panic)"

section \<open>CCFeedbackReportBlock\<close>

definition ssrcOffset :: nat where "ssrcOffset = 0"
definition beginSequenceOffset :: nat where "beginSequenceOffset = 4"
definition numReportsOffset :: nat where "numReportsOffset = 6"
definition reportsOffset :: nat where "reportsOffset = 8"
definition maxMetricBlocks :: nat where "maxMetricBlocks = 16384"

record CCFeedbackReportBlock =
  MediaSSRC :: "32 word"
  BeginSequence :: "16 word"
  MetricBlocks :: "CCFeedbackMetricBlock list"

text \<open>
  \<open>Len\<close>: \<open>n\<close> is an \<open>int\<close>, the result a \<open>uint16\<close>; the conversion \<open>uint16(n)\<close>, the
  doubling and the addition all wrap around.
\<close>

definition CCFeedbackReportBlock_Len :: "CCFeedbackReportBlock \<Rightarrow> 16 word" where
  "CCFeedbackReportBlock_Len b =
     (let n = length (MetricBlocks b);
          n = (if n mod 2 \<noteq> 0 then n + 1 else n)
      in of_nat reportsOffset + 2 * of_nat n)"

text \<open>
  The loop of \<open>marshal\<close> over the metric blocks; \<open>i\<close> is the \<open>int\<close> index of \<open>range\<close>.
\<close>

fun marshal_metrics :: "CCFeedbackMetricBlock list \<Rightarrow> nat \<Rightarrow> byte list \<Rightarrow> failure + byte list" where
  "marshal_metrics [] i buf = Inr buf"
| "marshal_metrics (block # blocks) i buf =
     (case CCFeedbackMetricBlock_marshal block of
        Inl e \<Rightarrow> Inl e
      | Inr b \<Rightarrow>
          (case copy_at buf (reportsOffset + i * 2) b of
             Inl e \<Rightarrow> Inl e
           | Inr buf' \<Rightarrow> marshal_metrics blocks (i + 1) buf'))"

definition CCFeedbackReportBlock_marshal :: "CCFeedbackReportBlock \<Rightarrow> failure + byte list" where
  "CCFeedbackReportBlock_marshal b =
     (if maxMetricBlocks < length (MetricBlocks b) then Inl (Err errTooManyReports)
      else
        let buf = replicate (unat (CCFeedbackReportBlock_Len b)) 0 in
        case PutUint32_at buf ssrcOffset (MediaSSRC b) of
          Inl e \<Rightarrow> Inl e
        | Inr buf \<Rightarrow>
            (case PutUint16_at buf beginSequenceOffset (BeginSequence b) of
               Inl e \<Rightarrow> Inl e
             | Inr buf \<Rightarrow>
                 (case PutUint16_at buf numReportsOffset (of_nat (length (MetricBlocks b))) of
                    Inl e \<Rightarrow> Inl e
                  | Inr buf \<Rightarrow> marshal_metrics (MetricBlocks b) 0 buf)))"

text \<open>
  The loop of \<open>unmarshal\<close>: \<open>i\<close>, \<open>offset\<close> and \<open>offset+2\<close> are \<open>uint16\<close> values, and
  \<open>mbs\<close> is the slice allocated by \<open>make\<close>, written by index.
\<close>

function unmarshal_metrics ::
  "slice \<Rightarrow> 16 word \<Rightarrow> 16 word \<Rightarrow> CCFeedbackMetricBlock list
     \<Rightarrow> failure + CCFeedbackMetricBlock list" where
  "unmarshal_metrics rawPacket numReports i mbs =
     (if i < numReports then
        (let offset = of_nat reportsOffset + 2 * i in
         case slice_range rawPacket (unat offset) (unat (offset + 2)) of
           Inl e \<Rightarrow> Inl e
         | Inr s \<Rightarrow>
             (case CCFeedbackMetricBlock_unmarshal (fst s) of
                Inl e \<Rightarrow> Inl e
              | Inr mb \<Rightarrow> unmarshal_metrics rawPacket numReports (i + 1) (mbs[unat i := mb])))
      else Inr mbs)"
  by pat_completeness auto
termination
proof (relation "measure (\<lambda>(rawPacket, numReports, i, mbs). unat numReports - unat i)")
  show "wf (measure (\<lambda>(rawPacket, numReports, i, mbs). unat numReports - unat i))"
    by simp
next
  fix rawPacket :: slice and numReports i :: "16 word" and mbs :: "CCFeedbackMetricBlock list"
  assume "i < numReports"
  then have "unat i < unat numReports" by (simp add: word_less_nat_alt)
  moreover have "unat numReports < 2 ^ 16" using unsigned_less [of numReports, where 'a = nat] by simp
  ultimately have "unat (i + 1) = unat i + 1" by (simp add: unat_word_ariths)
  with \<open>unat i < unat numReports\<close>
  show "((rawPacket, numReports, i + 1, mbs[unat i := mb]), (rawPacket, numReports, i, mbs))
          \<in> measure (\<lambda>(rawPacket, numReports, i, mbs). unat numReports - unat i)" for mb
    by simp
qed

declare unmarshal_metrics.simps [simp del]

definition CCFeedbackReportBlock_unmarshal :: "slice \<Rightarrow> failure + CCFeedbackReportBlock" where
  "CCFeedbackReportBlock_unmarshal rawPacket =
     (let raw = fst rawPacket in
      if length raw < reportsOffset then Inl (Err errReportBlockLength)
      else
        let numReports = Uint16 (drop numReportsOffset raw) in
        if int (length raw) < uint (of_nat reportsOffset + numReports * 2) then
          Inl (Err errIncorrectNumReports)
        else
          (case unmarshal_metrics rawPacket numReports 0
                  (replicate (unat numReports)
                     \<lparr>Received = False, ECN = 0, ArrivalTimeOffset = 0\<rparr>) of
             Inl e \<Rightarrow> Inl e
           | Inr mbs \<Rightarrow>
               Inr \<lparr>MediaSSRC = Uint32 (take beginSequenceOffset raw),
                    BeginSequence = Uint16 (take (numReportsOffset - beginSequenceOffset)
                                             (drop beginSequenceOffset raw)),
                    MetricBlocks = mbs\<rparr>))"

section \<open>The common header\<close>

text \<open>
  Modelled from the spec: the \<open>Header\<close> type, its \<open>Marshal\<close> and \<open>Unmarshal\<close> methods and
  the constants \<open>headerLength\<close> and \<open>ssrcLength\<close> are used by rfc8888.go but are not among
  the source files.  The specification (sections 3, 4.2 and 6) gives the layout: version 2 in
  the two top bits of the first byte, then the padding flag, then a 5-bit count or subtype;
  the packet type in the second byte; the length in 32-bit words minus one in the last two
  bytes, big endian.  Encoding rejects a count above 31 with the invalid-header error
  (section 7).  Decoding fails when the buffer is shorter than the 4 header bytes, and with the
  invalid-length error when the declared length is not the number of words of the buffer
  minus one.
\<close>

definition headerLength :: nat where "headerLength = 4"
definition ssrcLength :: nat where "ssrcLength = 4"

record Header =
  Padding :: bool
  Count :: "8 word"
  Type :: "8 word"
  Length :: "16 word"

definition Header_Marshal :: "Header \<Rightarrow> error + byte list" where
  "Header_Marshal h =
     (if 31 < Count h then Inl errInvalidHeader
      else Inr ([push_bit 6 2 OR (if Padding h then push_bit 5 1 else 0) OR Count h, Type h]
                  @ bytes16 (Length h)))"

definition Header_Unmarshal :: "byte list \<Rightarrow> error + Header" where
  "Header_Unmarshal rawPacket =
     (if length rawPacket < headerLength then Inl errPacketTooShort
      else if unat (Uint16 (drop 2 rawPacket)) \<noteq> length rawPacket div 4 - 1
      then Inl errInvalidLength
      else Inr \<lparr>Padding = bit (rawPacket ! 0) 5,
                Count = (rawPacket ! 0) AND 0x1F,
                Type = rawPacket ! 1,
                Length = Uint16 (drop 2 rawPacket)\<rparr>)"

section \<open>CCFeedbackReport\<close>

definition reportTimestampLength :: nat where "reportTimestampLength = 4"
definition reportBlockOffset :: nat where "reportBlockOffset = 8"

text \<open>
  The header is a field of a type that is declared elsewhere; the report is polymorphic in
  it, and \<open>Marshal\<close> and \<open>Unmarshal\<close> take the header's codec as an argument.
\<close>

record 'h CCFeedbackReport =
  Header :: 'h
  SenderSSRC :: "32 word"
  ReportBlocks :: "CCFeedbackReportBlock list"
  ReportTimestamp :: "32 word"

definition CCFeedbackReport_Len :: "'h CCFeedbackReport \<Rightarrow> 16 word" where
  "CCFeedbackReport_Len b =
     (let n = foldl (\<lambda>n block. n + CCFeedbackReportBlock_Len block) 0 (ReportBlocks b)
      in of_nat reportBlockOffset + n + of_nat reportTimestampLength)"

text \<open>The loop of \<open>Marshal\<close> over the report blocks; \<open>offset\<close> is a \<open>uint16\<close>.\<close>

fun marshal_blocks ::
  "CCFeedbackReportBlock list \<Rightarrow> 16 word \<Rightarrow> byte list \<Rightarrow> failure + 16 word \<times> byte list" where
  "marshal_blocks [] offset buf = Inr (offset, buf)"
| "marshal_blocks (block # blocks) offset buf =
     (case CCFeedbackReportBlock_marshal block of
        Inl e \<Rightarrow> Inl e
      | Inr b \<Rightarrow>
          (case copy_at buf (unat offset) b of
             Inl e \<Rightarrow> Inl e
           | Inr buf' \<Rightarrow> marshal_blocks blocks (offset + CCFeedbackReportBlock_Len block) buf'))"

definition CCFeedbackReport_Marshal ::
  "('h \<Rightarrow> error + byte list) \<Rightarrow> 'h CCFeedbackReport \<Rightarrow> failure + byte list" where
  "CCFeedbackReport_Marshal hdr_marshal b =
     (case hdr_marshal (Header b) of
        Inl e \<Rightarrow> Inl (Err e)
      | Inr header \<Rightarrow>
          (let buf = replicate (unat (CCFeedbackReport_Len b)) 0 in
           case copy_prefix buf headerLength header of
             Inl e \<Rightarrow> Inl e
           | Inr buf \<Rightarrow>
               (case PutUint32_at buf headerLength (SenderSSRC b) of
                  Inl e \<Rightarrow> Inl e
                | Inr buf \<Rightarrow>
                    (case marshal_blocks (ReportBlocks b) (of_nat reportBlockOffset) buf of
                       Inl e \<Rightarrow> Inl e
                     | Inr (offset, buf) \<Rightarrow>
                         PutUint32_at buf (unat offset) (ReportTimestamp b)))))"

text \<open>
  The loop of \<open>Unmarshal\<close>.  Nothing bounds the number of its rounds (a block whose \<open>Len\<close>
  wraps around to 0 does not advance \<open>offset\<close>), so it is a partial function: \<open>None\<close> is a
  run that never returns.
\<close>

partial_function (option) unmarshal_blocks ::
  "slice \<Rightarrow> 16 word \<Rightarrow> 16 word \<Rightarrow> CCFeedbackReportBlock list
     \<Rightarrow> (failure + CCFeedbackReportBlock list) option" where
  "unmarshal_blocks rawPacket reportTimestampOffset offset blocks =
     (if offset < reportTimestampOffset then
        (case slice_from rawPacket (unat offset) of
           Inl e \<Rightarrow> Some (Inl e)
         | Inr s \<Rightarrow>
             (case CCFeedbackReportBlock_unmarshal s of
                Inl e \<Rightarrow> Some (Inl e)
              | Inr block \<Rightarrow>
                  unmarshal_blocks rawPacket reportTimestampOffset
                    (offset + CCFeedbackReportBlock_Len block) (blocks @ [block])))
      else Some (Inr blocks))"

declare unmarshal_blocks.simps [code]

definition CCFeedbackReport_Unmarshal ::
  "(byte list \<Rightarrow> error + 'h) \<Rightarrow> slice \<Rightarrow> (failure + 'h CCFeedbackReport) option" where
  "CCFeedbackReport_Unmarshal hdr_unmarshal rawPacket =
     (let raw = fst rawPacket in
      if length raw < headerLength + ssrcLength + reportTimestampLength then
        Some (Inl (Err errPacketTooShort))
      else
        (case hdr_unmarshal raw of
           Inl e \<Rightarrow> Some (Inl (Err e))
         | Inr h \<Rightarrow>
             (let ssrc = Uint32 (drop headerLength raw);
                  reportTimestampOffset = (of_nat (length raw - reportTimestampLength) :: 16 word)
              in case Uint32_at raw (unat reportTimestampOffset) of
                   Inl e \<Rightarrow> Some (Inl e)
                 | Inr ts \<Rightarrow>
                     (case unmarshal_blocks rawPacket reportTimestampOffset
                             (of_nat reportBlockOffset) [] of
                        None \<Rightarrow> None
                      | Some (Inl e) \<Rightarrow> Some (Inl e)
                      | Some (Inr blocks) \<Rightarrow>
                          Some (Inr \<lparr>Header = h, SenderSSRC = ssrc,
                                     ReportBlocks = blocks, ReportTimestamp = ts\<rparr>)))))"

section \<open>The Application-Defined packet\<close>

text \<open>
  Modelled from the spec: the \<open>ApplicationDefined\<close> type and its \<open>Marshal\<close>, \<open>Unmarshal\<close>
  and \<open>MarshalSize\<close> methods are exercised by application_packet_test.go but are not among
  the source files.  The model follows section 4.3 of the specification in the layout with a
  single SSRC (header, SSRC, 4-byte name, data, padding), and the test vectors where the
  specification leaves a choice: packet type 204; every padding byte holds the padding count
  (\<open>03 03 03\<close>); a buffer below the 12 fixed bytes is too short; a length field that
  disagrees with the buffer is the invalid-length error; a padding count that exceeds the
  bytes after the name, or a padded packet that is not a whole number of words, is the
  wrong-padding error.
\<close>

definition TypeApplicationDefined :: "8 word" where
  "TypeApplicationDefined = 204"

record ApplicationDefined =
  SubType :: "8 word"
  SSRC :: "32 word"
  Name :: "byte list"
  Data :: "byte list"

definition getPadding :: "nat \<Rightarrow> nat" where
  "getPadding n = (4 - n mod 4) mod 4"

definition ApplicationDefined_MarshalSize :: "ApplicationDefined \<Rightarrow> nat" where
  "ApplicationDefined_MarshalSize a =
     12 + length (Data a) + getPadding (length (Data a))"

definition ApplicationDefined_Marshal :: "ApplicationDefined \<Rightarrow> error + byte list" where
  "ApplicationDefined_Marshal a =
     (if 31 < SubType a then Inl errInvalidHeader
      else if length (Name a) \<noteq> 4 then Inl errAppDefinedInvalidName
      else if 0xFFFF - 12 < length (Data a) then Inl errAppDefinedDataTooLarge
      else
        let paddingSize = getPadding (length (Data a));
            total = ApplicationDefined_MarshalSize a
        in case Header_Marshal \<lparr>Padding = (paddingSize \<noteq> 0), Count = SubType a,
                                 Type = TypeApplicationDefined,
                                 Length = of_nat (total div 4 - 1)\<rparr> of
             Inl e \<Rightarrow> Inl e
           | Inr header \<Rightarrow>
               Inr (header @ bytes32 (SSRC a) @ Name a @ Data a
                      @ replicate paddingSize (of_nat paddingSize)))"

definition ApplicationDefined_Unmarshal :: "byte list \<Rightarrow> error + ApplicationDefined" where
  "ApplicationDefined_Unmarshal rawPacket =
     (if length rawPacket < 12 then Inl errPacketTooShort
      else
        (case Header_Unmarshal rawPacket of
           Inl e \<Rightarrow> Inl e
         | Inr h \<Rightarrow>
             (let paddingSize = (if Padding h then unat (last rawPacket) else 0) in
              if Padding h \<and> (length rawPacket - 12 < paddingSize \<or> length rawPacket mod 4 \<noteq> 0)
              then Inl errWrongPadding
              else Inr \<lparr>SubType = Count h,
                        SSRC = Uint32 (drop 4 rawPacket),
                        Name = take 4 (drop 8 rawPacket),
                        Data = take (length rawPacket - 12 - paddingSize) (drop 12 rawPacket)\<rparr>)))"

section \<open>Wire images\<close>

text \<open>
  The bytes that the encoders produce when they succeed, written as list expressions, and
  the condition under which a metric block is encoded at all.  The lemmas
  \<open>metric_marshal_wire\<close> and \<open>block_marshal_eq\<close> relate them to the encoders.
\<close>

definition metric_ok :: "CCFeedbackMetricBlock \<Rightarrow> bool" where
  "metric_ok m \<longleftrightarrow> ECN m \<le> 3 \<and> ArrivalTimeOffset m \<le> 8191"

definition wire_metric :: "CCFeedbackMetricBlock \<Rightarrow> byte list" where
  "wire_metric m = bytes16 (packed (Received m) (ECN m) (ArrivalTimeOffset m))"

definition wire_block :: "CCFeedbackReportBlock \<Rightarrow> byte list" where
  "wire_block b =
     bytes32 (MediaSSRC b) @ bytes16 (BeginSequence b)
       @ bytes16 (of_nat (length (MetricBlocks b)))
       @ concat (map wire_metric (MetricBlocks b))
       @ replicate (if length (MetricBlocks b) mod 2 \<noteq> 0 then 2 else 0) 0"

text \<open>
  What the decoder makes of two bytes, and of the \<open>n\<close> pairs of bytes that follow the
  8-byte prefix of a report block (lemmas \<open>metric_unmarshal_pair\<close> and
  \<open>block_unmarshal_eq\<close>).
\<close>

definition metric_of_wire :: "byte \<Rightarrow> byte \<Rightarrow> CCFeedbackMetricBlock" where
  "metric_of_wire x y =
     (if x AND 0x80 \<noteq> 0
      then \<lparr>Received = True, ECN = drop_bit 5 x AND 0x03,
            ArrivalTimeOffset = Uint16 [x, y] AND 0x1FFF\<rparr>
      else \<lparr>Received = False, ECN = ECNNonECT, ArrivalTimeOffset = 0\<rparr>)"

definition metrics_of_wire :: "byte list \<Rightarrow> nat \<Rightarrow> CCFeedbackMetricBlock list" where
  "metrics_of_wire raw n =
     map (\<lambda>k. metric_of_wire (raw ! (reportsOffset + 2 * k)) (raw ! (reportsOffset + 2 * k + 1)))
       [0 ..< n]"

text \<open>
  What a metric block looks like after encoding and decoding: the decoder resets ECN and
  offset of a block that is not received (lemma \<open>metric_of_wire_wire\<close>).
\<close>

definition canonical :: "CCFeedbackMetricBlock \<Rightarrow> CCFeedbackMetricBlock" where
  "canonical m =
     (if Received m then m else \<lparr>Received = False, ECN = ECNNonECT, ArrivalTimeOffset = 0\<rparr>)"





section \<open>Metric blocks\<close>

lemma unat_ucast_8_16: "unat (ucast (e :: 8 word) :: 16 word) = unat e"
proof -
  have "unat e < 2 ^ 8" using unsigned_less [of e, where 'a = nat] by simp
  then have "unat e < 2 ^ 16" by simp
  then show ?thesis by (simp add: unsigned_ucast_eq take_bit_nat_eq_self)
qed

lemma ecn_bits:
  assumes "(e :: 8 word) \<le> 3" and "bit e n"
  shows "n < 2"
proof -
  from assms(1) have "e < 2 ^ 2" by (simp add: word_le_nat_alt word_less_nat_alt)
  then have "take_bit 2 e = e" unfolding take_bit_eq_mask by (rule less_mask_eq)
  then show ?thesis using assms(2) by (metis bit_take_bit_iff)
qed

lemma ato_bits:
  assumes "(a :: 16 word) \<le> 8191" and "bit a n"
  shows "n < 13"
proof -
  from assms(1) have "a < 2 ^ 13" by (simp add: word_le_nat_alt word_less_nat_alt)
  then have "take_bit 13 a = a" unfolding take_bit_eq_mask by (rule less_mask_eq)
  then show ?thesis using assms(2) by (metis bit_take_bit_iff)
qed

lemma metric_marshal_eq:
  "CCFeedbackMetricBlock_marshal b =
     (if ECN b \<le> 3 \<and> ArrivalTimeOffset b \<le> 8191
      then Inr (bytes16 (packed (Received b) (ECN b) (ArrivalTimeOffset b)))
      else Inl (Err errRange))"
  by (auto simp add: CCFeedbackMetricBlock_marshal_def Let_def setNBitsOfUint16_def packed_def
        unat_ucast_8_16 word_le_nat_alt mask_eq_exp_minus_1)

lemma bit_packed:
  assumes "e \<le> 3" and "a \<le> 8191"
  shows "bit (packed r e a) n \<longleftrightarrow>
           (n = 15 \<and> r) \<or> (13 \<le> n \<and> n < 15 \<and> bit e (n - 13)) \<or> (n < 13 \<and> bit a n)"
proof -
  have E: "bit e (n - 13) \<Longrightarrow> n - 13 < 2" using ecn_bits [OF assms(1)] by blast
  have A: "bit a n \<Longrightarrow> n < 13" using ato_bits [OF assms(2)] by blast
  show ?thesis unfolding packed_def using E A by (auto simp add: bit_simps)
qed

lemma bytes16_nth:
  "bytes16 w ! 0 = ucast (drop_bit 8 w)" "bytes16 w ! 1 = ucast w" "length (bytes16 w) = 2"
  by (simp_all add: bytes16_def)

lemma Uint16_bytes16: "Uint16 (bytes16 w) = w"
  unfolding Uint16_def bytes16_nth
  by (rule bit_word_eqI) (auto simp add: bit_simps)

lemma top_bit: "(x :: byte) AND 0x80 \<noteq> 0 \<longleftrightarrow> bit x 7"
  by (simp add: bit_iff_and_push_bit_not_eq_0)

lemma packed_received:
  assumes "e \<le> 3" and "a \<le> 8191"
  shows "bit (bytes16 (packed r e a) ! 0) 7 \<longleftrightarrow> r"
  unfolding bytes16_nth by (simp add: bit_simps bit_packed [OF assms])

lemma packed_ecn:
  assumes "e \<le> 3" and "a \<le> 8191"
  shows "drop_bit 5 (bytes16 (packed r e a) ! 0) AND 0x03 = e"
proof -
  have "(0x03 :: byte) = mask 2" by (simp add: mask_eq_exp_minus_1)
  moreover have "drop_bit 5 (ucast (drop_bit 8 (packed r e a)) :: byte) AND mask 2 = e"
    by (rule bit_word_eqI) (auto simp add: bit_simps bit_packed [OF assms] dest: ecn_bits [OF assms(1)])
  ultimately show ?thesis unfolding bytes16_nth by simp
qed

lemma packed_ato:
  assumes "e \<le> 3" and "a \<le> 8191"
  shows "Uint16 (bytes16 (packed r e a)) AND 0x1FFF = a"
proof -
  have "(0x1FFF :: 16 word) = mask 13" by (simp add: mask_eq_exp_minus_1)
  moreover have "packed r e a AND mask 13 = a"
    by (rule bit_word_eqI) (auto simp add: bit_simps bit_packed [OF assms] dest: ato_bits [OF assms(2)])
  ultimately show ?thesis unfolding Uint16_bytes16 by simp
qed

lemma metric_unmarshal_packed:
  assumes "e \<le> 3" and "a \<le> 8191"
  shows "CCFeedbackMetricBlock_unmarshal (bytes16 (packed r e a)) =
           Inr (if r then \<lparr>Received = True, ECN = e, ArrivalTimeOffset = a\<rparr>
                else \<lparr>Received = False, ECN = 0, ArrivalTimeOffset = 0\<rparr>)"
  unfolding CCFeedbackMetricBlock_unmarshal_def top_bit
  by (simp add: metricBlockLength_def bytes16_nth(3) ECNNonECT_def
        packed_received [OF assms] packed_ecn [OF assms] packed_ato [OF assms])

text \<open>
  C1.  A received metric block whose ECN is one of the four values 0 to 3 and whose
  arrival-time offset is at most 8191 is encoded in 2 bytes, and decoding these bytes gives
  back the same block.  Two bytes whose top bit is 0 decode to a block that is not received,
  with ECN Non-ECT and offset 0, whatever the other 15 bits are.
\<close>

theorem C1_metric_block_bit_packing:
  fixes b :: CCFeedbackMetricBlock and b0 b1 :: byte
  shows "(Received b \<and> ECN b \<le> 3 \<and> ArrivalTimeOffset b \<le> 8191 \<longrightarrow>
            (\<exists>buf. CCFeedbackMetricBlock_marshal b = Inr buf \<and> length buf = 2
                   \<and> CCFeedbackMetricBlock_unmarshal buf = Inr b))
       \<and> (\<not> bit b0 7 \<longrightarrow>
            CCFeedbackMetricBlock_unmarshal [b0, b1] =
              Inr \<lparr>Received = False, ECN = ECNNonECT, ArrivalTimeOffset = 0\<rparr>)"
proof (intro conjI impI)
  assume h: "Received b \<and> ECN b \<le> 3 \<and> ArrivalTimeOffset b \<le> 8191"
  then have b: "b = \<lparr>Received = True, ECN = ECN b, ArrivalTimeOffset = ArrivalTimeOffset b\<rparr>"
    by simp
  from h have "CCFeedbackMetricBlock_marshal b =
      Inr (bytes16 (packed True (ECN b) (ArrivalTimeOffset b)))"
    by (simp add: metric_marshal_eq)
  moreover from h have "CCFeedbackMetricBlock_unmarshal
      (bytes16 (packed True (ECN b) (ArrivalTimeOffset b))) = Inr b"
    by (subst (2) b) (simp add: metric_unmarshal_packed)
  ultimately show "\<exists>buf. CCFeedbackMetricBlock_marshal b = Inr buf \<and> length buf = 2
                   \<and> CCFeedbackMetricBlock_unmarshal buf = Inr b"
    by (simp add: bytes16_nth(3))
next
  assume "\<not> bit b0 7"
  then show "CCFeedbackMetricBlock_unmarshal [b0, b1] =
              Inr \<lparr>Received = False, ECN = ECNNonECT, ArrivalTimeOffset = 0\<rparr>"
    unfolding CCFeedbackMetricBlock_unmarshal_def top_bit by (simp add: metricBlockLength_def)
qed

theorem C1_metric_block_bit_packing_witness:
  "Received \<lparr>Received = True, ECN = 2, ArrivalTimeOffset = 5000\<rparr>
   \<and> ECN \<lparr>Received = True, ECN = 2, ArrivalTimeOffset = 5000\<rparr> \<le> 3
   \<and> ArrivalTimeOffset \<lparr>Received = True, ECN = 2, ArrivalTimeOffset = 5000\<rparr> \<le> 8191
   \<and> (\<exists>buf. CCFeedbackMetricBlock_marshal \<lparr>Received = True, ECN = 2, ArrivalTimeOffset = 5000\<rparr>
               = Inr buf \<and> length buf = 2
             \<and> CCFeedbackMetricBlock_unmarshal buf
                 = Inr \<lparr>Received = True, ECN = 2, ArrivalTimeOffset = 5000\<rparr>)
   \<and> \<not> bit (0x7F :: byte) 7
   \<and> CCFeedbackMetricBlock_unmarshal [0x7F, 0xFF] =
        Inr \<lparr>Received = False, ECN = ECNNonECT, ArrivalTimeOffset = 0\<rparr>"
  using C1_metric_block_bit_packing
    [of "\<lparr>Received = True, ECN = 2, ArrivalTimeOffset = 5000\<rparr>" "0x7F" "0xFF"]
  by simp

lemma bytes16_zero_iff: "bytes16 w = [0, 0] \<longleftrightarrow> w = 0"
proof
  assume "bytes16 w = [0, 0]"
  then have "Uint16 (bytes16 w) = Uint16 [0, 0]" by simp
  then show "w = 0" unfolding Uint16_bytes16 by (simp add: Uint16_def)
next
  assume "w = 0"
  then show "bytes16 w = [0, 0]" by (simp add: bytes16_def)
qed

text \<open>
  C5 (as stated, refuted).  A block that is not received but stores ECN 1 and offset 5 is
  encoded without error, and the two bytes are \<open>20 05\<close>, not \<open>00 00\<close>.
\<close>

theorem C5_not_received_counterexample:
  "CCFeedbackMetricBlock_marshal \<lparr>Received = False, ECN = 1, ArrivalTimeOffset = 5\<rparr>
     = Inr [0x20, 0x05]
   \<and> [0x20, 0x05] \<noteq> [0x00, 0x00 :: byte]"
  by (simp add: CCFeedbackMetricBlock_marshal_def setNBitsOfUint16_def bytes16_def
        mask_eq_exp_minus_1)

text \<open>
  C5 (amended).  When a block that is not received is encoded without error, the received
  bit of the 2 bytes is 0, the two ECN bits hold the stored ECN value and the 13 offset bits
  hold the stored arrival-time offset; the output is \<open>00 00\<close> exactly when both stored
  fields are zero.
\<close>

theorem C5_not_received_marshal:
  fixes b :: CCFeedbackMetricBlock
  assumes "\<not> Received b" and "CCFeedbackMetricBlock_marshal b = Inr buf"
  shows "length buf = 2 \<and> \<not> bit (buf ! 0) 7
         \<and> drop_bit 5 (buf ! 0) AND 0x03 = ECN b
         \<and> Uint16 buf AND 0x1FFF = ArrivalTimeOffset b
         \<and> (buf = [0x00, 0x00] \<longleftrightarrow> ECN b = 0 \<and> ArrivalTimeOffset b = 0)"
proof -
  let ?w = "packed False (ECN b) (ArrivalTimeOffset b)"
  from assms have r: "ECN b \<le> 3" "ArrivalTimeOffset b \<le> 8191" and buf: "buf = bytes16 ?w"
    by (auto simp add: metric_marshal_eq split: if_splits)
  have e: "drop_bit 5 (buf ! 0) AND 0x03 = ECN b" unfolding buf by (rule packed_ecn [OF r])
  have a: "Uint16 buf AND 0x1FFF = ArrivalTimeOffset b" unfolding buf by (rule packed_ato [OF r])
  have z: "buf = [0x00, 0x00] \<longleftrightarrow> ECN b = 0 \<and> ArrivalTimeOffset b = 0"
  proof
    assume "buf = [0x00, 0x00]"
    with e a show "ECN b = 0 \<and> ArrivalTimeOffset b = 0" by (simp add: Uint16_def)
  next
    assume "ECN b = 0 \<and> ArrivalTimeOffset b = 0"
    then have "?w = 0" by (simp add: packed_def)
    then show "buf = [0x00, 0x00]" unfolding buf by (simp add: bytes16_zero_iff)
  qed
  show ?thesis using e a z packed_received [OF r, of False] by (simp add: buf bytes16_nth(3))
qed

theorem C5_not_received_marshal_witness:
  "\<not> Received \<lparr>Received = False, ECN = 1, ArrivalTimeOffset = 5\<rparr>
   \<and> CCFeedbackMetricBlock_marshal \<lparr>Received = False, ECN = 1, ArrivalTimeOffset = 5\<rparr>
       = Inr [0x20, 0x05]
   \<and> drop_bit 5 ([0x20, 0x05 :: byte] ! 0) AND 0x03 = (1 :: byte)
   \<and> Uint16 [0x20, 0x05] AND 0x1FFF = 5"
proof -
  have m: "CCFeedbackMetricBlock_marshal \<lparr>Received = False, ECN = 1, ArrivalTimeOffset = 5\<rparr>
            = Inr [0x20, 0x05]"
    by (simp add: CCFeedbackMetricBlock_marshal_def setNBitsOfUint16_def bytes16_def
          mask_eq_exp_minus_1)
  show ?thesis
    using C5_not_received_marshal
      [of "\<lparr>Received = False, ECN = 1, ArrivalTimeOffset = 5\<rparr>" "[0x20, 0x05]"] m
    by simp
qed

text \<open>
  C10.  Encoding a metric block fails with the range error of the bit-field packer whenever
  the stored ECN exceeds 3 or the stored arrival-time offset exceeds 8191, whether or not the
  block is received, and yields 2 bytes for every block within both bounds.
\<close>

theorem C10_metric_marshal_range:
  fixes b :: CCFeedbackMetricBlock
  shows "(3 < ECN b \<or> 8191 < ArrivalTimeOffset b \<longrightarrow>
            CCFeedbackMetricBlock_marshal b = Inl (Err errRange))
       \<and> (ECN b \<le> 3 \<and> ArrivalTimeOffset b \<le> 8191 \<longrightarrow>
            (\<exists>buf. CCFeedbackMetricBlock_marshal b = Inr buf \<and> length buf = 2))"
  by (auto simp add: metric_marshal_eq bytes16_nth(3))

theorem C10_metric_marshal_range_witness:
  "(3 :: byte) < 4
   \<and> CCFeedbackMetricBlock_marshal \<lparr>Received = False, ECN = 4, ArrivalTimeOffset = 0\<rparr>
       = Inl (Err errRange)
   \<and> (8191 :: 16 word) < 8192
   \<and> CCFeedbackMetricBlock_marshal \<lparr>Received = True, ECN = 0, ArrivalTimeOffset = 8192\<rparr>
       = Inl (Err errRange)
   \<and> (3 :: byte) \<le> 3 \<and> (8191 :: 16 word) \<le> 8191
   \<and> (\<exists>buf. CCFeedbackMetricBlock_marshal \<lparr>Received = True, ECN = 3, ArrivalTimeOffset = 8191\<rparr>
               = Inr buf \<and> length buf = 2)"
  using C10_metric_marshal_range [of "\<lparr>Received = False, ECN = 4, ArrivalTimeOffset = 0\<rparr>"]
    C10_metric_marshal_range [of "\<lparr>Received = True, ECN = 0, ArrivalTimeOffset = 8192\<rparr>"]
    C10_metric_marshal_range [of "\<lparr>Received = True, ECN = 3, ArrivalTimeOffset = 8191\<rparr>"]
  by simp

section \<open>Buffers\<close>

lemma length_copy_at: "copy_at buf off src = Inr buf' \<Longrightarrow> length buf' = length buf"
  by (auto simp add: copy_at_def split: if_splits)

lemma length_PutUint16_at: "PutUint16_at buf off v = Inr buf' \<Longrightarrow> length buf' = length buf"
  by (auto simp add: PutUint16_at_def bytes16_def split: if_splits)

lemma length_PutUint32_at: "PutUint32_at buf off v = Inr buf' \<Longrightarrow> length buf' = length buf"
  by (auto simp add: PutUint32_at_def bytes32_def split: if_splits)

lemma length_copy_prefix: "copy_prefix buf n src = Inr buf' \<Longrightarrow> length buf' = length buf"
  by (auto simp add: copy_prefix_def split: if_splits)

lemma copy_at_fits:
  "off + length src \<le> length buf \<Longrightarrow>
     copy_at buf off src = Inr (take off buf @ src @ drop (off + length src) buf)"
  by (simp add: copy_at_def)

section \<open>Encoding a report block\<close>

lemma metric_marshal_wire:
  "CCFeedbackMetricBlock_marshal m = (if metric_ok m then Inr (wire_metric m) else Inl (Err errRange))"
  by (simp add: metric_marshal_eq metric_ok_def wire_metric_def)

lemma length_wire_metric: "length (wire_metric m) = 2"
  by (simp add: wire_metric_def bytes16_nth(3))

lemma length_concat_wire: "length (concat (map wire_metric ms)) = 2 * length ms"
  by (induction ms) (simp_all add: length_wire_metric)

lemma marshal_metrics_eq:
  "reportsOffset + 2 * i + 2 * length ms \<le> length buf \<Longrightarrow>
     marshal_metrics ms i buf =
       (if list_all metric_ok ms
        then Inr (take (reportsOffset + 2 * i) buf @ concat (map wire_metric ms)
                    @ drop (reportsOffset + 2 * i + 2 * length ms) buf)
        else Inl (Err errRange))"
proof (induction ms arbitrary: i buf)
  case Nil
  then show ?case by simp
next
  case (Cons m ms)
  let ?o = "reportsOffset + 2 * i"
  let ?buf' = "take ?o buf @ wire_metric m @ drop (?o + 2) buf"
  from Cons.prems have fit: "?o + length (wire_metric m) \<le> length buf"
    by (simp add: length_wire_metric)
  have c: "copy_at buf (reportsOffset + i * 2) (wire_metric m) = Inr ?buf'"
    using copy_at_fits [OF fit] by (simp add: length_wire_metric mult.commute)
  have len: "length ?buf' = length buf" using Cons.prems by (simp add: length_wire_metric)
  have ih: "marshal_metrics ms (i + 1) ?buf' =
       (if list_all metric_ok ms
        then Inr (take (reportsOffset + 2 * (i + 1)) ?buf' @ concat (map wire_metric ms)
                    @ drop (reportsOffset + 2 * (i + 1) + 2 * length ms) ?buf')
        else Inl (Err errRange))"
    using Cons.prems unfolding len [symmetric] by (intro Cons.IH) simp
  have t: "take (reportsOffset + 2 * (i + 1)) ?buf' = take ?o buf @ wire_metric m"
    using Cons.prems by (simp add: length_wire_metric)
  have d: "drop (reportsOffset + 2 * (i + 1) + 2 * length ms) ?buf'
             = drop (?o + 2 * length (m # ms)) buf"
    using Cons.prems by (simp add: length_wire_metric add.commute add.left_commute)
  show ?case
  proof (cases "metric_ok m")
    case False
    then show ?thesis by (simp add: metric_marshal_wire)
  next
    case True
    have "marshal_metrics (m # ms) i buf = marshal_metrics ms (i + 1) ?buf'"
      by (simp only: marshal_metrics.simps metric_marshal_wire True if_True sum.case c)
    also have "\<dots> = (if list_all metric_ok ms
        then Inr ((take ?o buf @ wire_metric m) @ concat (map wire_metric ms)
                    @ drop (?o + 2 * length (m # ms)) buf)
        else Inl (Err errRange))"
      by (simp only: ih t d)
    finally show ?thesis using True by simp
  qed
qed


lemma unat_of_nat_16: "n < 65536 \<Longrightarrow> unat (of_nat n :: 16 word) = n"
  by (simp add: unsigned_of_nat take_bit_nat_eq_self)

lemma block_Len_of_nat:
  "CCFeedbackReportBlock_Len b =
     of_nat (8 + 2 * (if length (MetricBlocks b) mod 2 \<noteq> 0 then length (MetricBlocks b) + 1
                      else length (MetricBlocks b)))"
  by (simp add: CCFeedbackReportBlock_Len_def reportsOffset_def Let_def)

lemma unat_block_Len:
  assumes "length (MetricBlocks b) \<le> 32762"
  shows "unat (CCFeedbackReportBlock_Len b) =
           8 + 2 * (if length (MetricBlocks b) mod 2 \<noteq> 0 then length (MetricBlocks b) + 1
                    else length (MetricBlocks b))"
proof -
  let ?n = "length (MetricBlocks b)"
  have "8 + 2 * (if ?n mod 2 \<noteq> 0 then ?n + 1 else ?n) < 65536"
    using assms by (auto; presburger)
  then show ?thesis unfolding block_Len_of_nat by (rule unat_of_nat_16)
qed

lemma length_wire_block:
  "length (wire_block b) =
     8 + 2 * (if length (MetricBlocks b) mod 2 \<noteq> 0 then length (MetricBlocks b) + 1
              else length (MetricBlocks b))"
  by (simp add: wire_block_def bytes32_def bytes16_def length_concat_wire)

lemma block_marshal_eq:
  "CCFeedbackReportBlock_marshal b =
     (if maxMetricBlocks < length (MetricBlocks b) then Inl (Err errTooManyReports)
      else if list_all metric_ok (MetricBlocks b) then Inr (wire_block b)
      else Inl (Err errRange))"
proof (cases "maxMetricBlocks < length (MetricBlocks b)")
  case True
  then show ?thesis by (simp add: CCFeedbackReportBlock_marshal_def)
next
  case False
  let ?n = "length (MetricBlocks b)"
  let ?n' = "if ?n mod 2 \<noteq> 0 then ?n + 1 else ?n"
  let ?L = "unat (CCFeedbackReportBlock_Len b)"
  let ?h = "bytes32 (MediaSSRC b) @ bytes16 (BeginSequence b) @ bytes16 (of_nat ?n)"
  from False have n: "?n \<le> 16384" by (simp add: maxMetricBlocks_def)
  then have L: "?L = 8 + 2 * ?n'" using unat_block_Len [of b] by simp
  have p1: "PutUint32_at (replicate ?L 0) ssrcOffset (MediaSSRC b)
              = Inr (bytes32 (MediaSSRC b) @ replicate (?L - 4) 0)"
    by (simp add: PutUint32_at_def ssrcOffset_def L)
  have p2: "PutUint16_at (bytes32 (MediaSSRC b) @ replicate (?L - 4) 0) beginSequenceOffset
              (BeginSequence b)
              = Inr (bytes32 (MediaSSRC b) @ bytes16 (BeginSequence b) @ replicate (?L - 6) 0)"
    by (simp add: PutUint16_at_def beginSequenceOffset_def L bytes32_def)
  have p3: "PutUint16_at (bytes32 (MediaSSRC b) @ bytes16 (BeginSequence b) @ replicate (?L - 6) 0)
              numReportsOffset (of_nat ?n)
              = Inr (?h @ replicate (?L - 8) 0)"
    by (simp add: PutUint16_at_def numReportsOffset_def L bytes32_def bytes16_def)
  have lh: "length ?h = 8" by (simp add: bytes32_def bytes16_def)
  have fit: "reportsOffset + 2 * 0 + 2 * ?n \<le> length (?h @ replicate (?L - 8) 0)"
    by (simp add: reportsOffset_def L bytes32_def bytes16_def)
  have tk: "take (reportsOffset + 2 * 0) (?h @ replicate (?L - 8) 0) = ?h"
    using lh by (simp add: reportsOffset_def)
  have "?L - 8 - 2 * ?n = (if ?n mod 2 \<noteq> 0 then 2 else 0)" by (simp add: L)
  then have dr: "drop (reportsOffset + 2 * 0 + 2 * ?n) (?h @ replicate (?L - 8) 0)
                   = replicate (if ?n mod 2 \<noteq> 0 then 2 else 0) 0"
    using lh by (simp add: reportsOffset_def)
  have w: "take (reportsOffset + 2 * 0) (?h @ replicate (?L - 8) 0)
           @ concat (map wire_metric (MetricBlocks b))
           @ drop (reportsOffset + 2 * 0 + 2 * ?n) (?h @ replicate (?L - 8) 0) = wire_block b"
    unfolding tk dr by (simp add: wire_block_def)
  have "CCFeedbackReportBlock_marshal b =
          marshal_metrics (MetricBlocks b) 0 (?h @ replicate (?L - 8) 0)"
    using False by (simp add: CCFeedbackReportBlock_marshal_def Let_def p1 p2 p3)
  also have "\<dots> = (if list_all metric_ok (MetricBlocks b) then Inr (wire_block b)
                    else Inl (Err errRange))"
    unfolding marshal_metrics_eq [OF fit] w ..
  finally show ?thesis using False by simp
qed

lemma Uint16_bytes16_append: "Uint16 (bytes16 w @ rest) = w"
proof -
  have "(bytes16 w @ rest) ! 0 = bytes16 w ! 0" "(bytes16 w @ rest) ! 1 = bytes16 w ! 1"
    by (simp_all add: nth_append bytes16_nth(3))
  then have "Uint16 (bytes16 w @ rest) = Uint16 (bytes16 w)" by (simp add: Uint16_def)
  then show ?thesis by (simp add: Uint16_bytes16)
qed

lemma replicate_2: "replicate 2 x = [x, x]"
  by (simp add: numeral_2_eq_2)

lemma wire_block_count:
  "Uint16 (drop numReportsOffset (wire_block b)) = of_nat (length (MetricBlocks b))"
  by (simp add: wire_block_def numReportsOffset_def bytes32_def bytes16_nth(3)
        Uint16_bytes16_append)

text \<open>
  C7.  Encoding a report block returns the too-many-reports error exactly when the block has
  more than 16384 metric blocks.  A count at or below the ceiling is not rejected: the
  encoder then succeeds whenever every metric block can be encoded, and whenever it succeeds
  the two bytes at offset 6 of the output hold the count, big endian.
\<close>

theorem C7_too_many_reports:
  fixes b :: CCFeedbackReportBlock
  shows "(CCFeedbackReportBlock_marshal b = Inl (Err errTooManyReports)
            \<longleftrightarrow> maxMetricBlocks < length (MetricBlocks b))
       \<and> (length (MetricBlocks b) \<le> maxMetricBlocks \<and> list_all metric_ok (MetricBlocks b) \<longrightarrow>
            (\<exists>buf. CCFeedbackReportBlock_marshal b = Inr buf))
       \<and> (CCFeedbackReportBlock_marshal b = Inr buf \<longrightarrow>
            length (MetricBlocks b) \<le> maxMetricBlocks
            \<and> unat (Uint16 (drop numReportsOffset buf)) = length (MetricBlocks b))"
proof (intro conjI impI)
  show "CCFeedbackReportBlock_marshal b = Inl (Err errTooManyReports)
            \<longleftrightarrow> maxMetricBlocks < length (MetricBlocks b)"
    by (simp add: block_marshal_eq)
next
  assume "length (MetricBlocks b) \<le> maxMetricBlocks \<and> list_all metric_ok (MetricBlocks b)"
  then show "\<exists>buf. CCFeedbackReportBlock_marshal b = Inr buf"
    by (simp add: block_marshal_eq)
next
  assume m: "CCFeedbackReportBlock_marshal b = Inr buf"
  then show n: "length (MetricBlocks b) \<le> maxMetricBlocks"
    by (simp add: block_marshal_eq split: if_splits)
  from m have "buf = wire_block b" by (simp add: block_marshal_eq split: if_splits)
  moreover from n have "unat (of_nat (length (MetricBlocks b)) :: 16 word) = length (MetricBlocks b)"
    by (intro unat_of_nat_16) (simp add: maxMetricBlocks_def)
  ultimately show "unat (Uint16 (drop numReportsOffset buf)) = length (MetricBlocks b)"
    by (simp add: wire_block_count)
qed

theorem C7_too_many_reports_witness:
  "length (MetricBlocks \<lparr>MediaSSRC = 2, BeginSequence = 5,
       MetricBlocks = [\<lparr>Received = True, ECN = 1, ArrivalTimeOffset = 7\<rparr>]\<rparr>) \<le> maxMetricBlocks
   \<and> list_all metric_ok (MetricBlocks \<lparr>MediaSSRC = 2, BeginSequence = 5,
       MetricBlocks = [\<lparr>Received = True, ECN = 1, ArrivalTimeOffset = 7\<rparr>]\<rparr>)
   \<and> CCFeedbackReportBlock_marshal \<lparr>MediaSSRC = 2, BeginSequence = 5,
       MetricBlocks = [\<lparr>Received = True, ECN = 1, ArrivalTimeOffset = 7\<rparr>]\<rparr>
       = Inr [0, 0, 0, 2, 0, 5, 0, 1, 0xA0, 0x07, 0, 0]
   \<and> unat (Uint16 (drop numReportsOffset [0, 0, 0, 2, 0, 5, 0, 1, 0xA0, 0x07, 0, 0])) = 1
   \<and> CCFeedbackReportBlock_marshal \<lparr>MediaSSRC = 2, BeginSequence = 5,
       MetricBlocks = replicate 16385 \<lparr>Received = True, ECN = 1, ArrivalTimeOffset = 7\<rparr>\<rparr>
       = Inl (Err errTooManyReports)"
proof -
  let ?b = "\<lparr>MediaSSRC = 2, BeginSequence = 5,
       MetricBlocks = [\<lparr>Received = True, ECN = 1, ArrivalTimeOffset = 7\<rparr>]\<rparr>"
  let ?big = "\<lparr>MediaSSRC = 2, BeginSequence = 5,
       MetricBlocks = replicate 16385 \<lparr>Received = True, ECN = 1, ArrivalTimeOffset = 7\<rparr>\<rparr>"
  have m: "CCFeedbackReportBlock_marshal ?b = Inr [0, 0, 0, 2, 0, 5, 0, 1, 0xA0, 0x07, 0, 0]"
    by (simp add: block_marshal_eq maxMetricBlocks_def metric_ok_def wire_block_def
          wire_metric_def packed_def bytes32_def bytes16_def mask_eq_exp_minus_1
          replicate_2)
  show ?thesis
    using C7_too_many_reports [of ?b "[0, 0, 0, 2, 0, 5, 0, 1, 0xA0, 0x07, 0, 0]"]
      C7_too_many_reports [of ?big] m
    by (simp add: maxMetricBlocks_def metric_ok_def)
qed

section \<open>Encoding a report\<close>

lemma length_marshal_metrics:
  "marshal_metrics ms i buf = Inr buf' \<Longrightarrow> length buf' = length buf"
proof (induction ms arbitrary: i buf)
  case Nil
  then show ?case by simp
next
  case (Cons m ms)
  then show ?case
    by (auto split: sum.splits dest!: length_copy_at)
qed

lemma length_block_marshal:
  "CCFeedbackReportBlock_marshal b = Inr buf \<Longrightarrow> length buf = unat (CCFeedbackReportBlock_Len b)"
  by (auto simp add: CCFeedbackReportBlock_marshal_def Let_def split: if_splits sum.splits
        dest!: length_marshal_metrics length_PutUint16_at length_PutUint32_at)

lemma length_marshal_blocks:
  "marshal_blocks bs offset buf = Inr (offset', buf') \<Longrightarrow> length buf' = length buf"
proof (induction bs arbitrary: offset buf)
  case Nil
  then show ?case by simp
next
  case (Cons b bs)
  then show ?case
    by (auto split: sum.splits dest!: length_copy_at)
qed

lemma length_report_Marshal:
  "CCFeedbackReport_Marshal hm b = Inr buf \<Longrightarrow> length buf = unat (CCFeedbackReport_Len b)"
  by (auto simp add: CCFeedbackReport_Marshal_def Let_def split: sum.splits prod.splits
        dest!: length_marshal_blocks length_PutUint32_at length_copy_prefix)

text \<open>
  C9.  Whenever \<open>Marshal\<close> succeeds on a congestion-control feedback report, the buffer it
  returns has exactly \<open>Len()\<close> bytes, whatever the header's encoder is.  The same holds one
  level down: a successfully encoded report block has \<open>Len()\<close> bytes, and a successfully
  encoded metric block has the 2 bytes of \<open>metricBlockLength\<close>.
\<close>

theorem C9_size_consistency:
  fixes b :: "'h CCFeedbackReport" and blk :: CCFeedbackReportBlock
    and mb :: CCFeedbackMetricBlock
  shows "(CCFeedbackReport_Marshal hdr_marshal b = Inr buf \<longrightarrow>
            length buf = unat (CCFeedbackReport_Len b))
       \<and> (CCFeedbackReportBlock_marshal blk = Inr buf' \<longrightarrow>
            length buf' = unat (CCFeedbackReportBlock_Len blk))
       \<and> (CCFeedbackMetricBlock_marshal mb = Inr buf'' \<longrightarrow> length buf'' = metricBlockLength)"
  by (auto simp add: length_report_Marshal length_block_marshal metric_marshal_eq bytes16_nth(3)
        metricBlockLength_def split: if_splits)


theorem C9_size_consistency_witness:
  "CCFeedbackReport_Marshal Header_Marshal
     \<lparr>Header = \<lparr>Padding = False, Count = 11, Type = 205, Length = 5\<rparr>, SenderSSRC = 1,
      ReportBlocks = [\<lparr>MediaSSRC = 2, BeginSequence = 5,
        MetricBlocks = [\<lparr>Received = True, ECN = 1, ArrivalTimeOffset = 7\<rparr>]\<rparr>],
      ReportTimestamp = 9\<rparr>
     = Inr [0x8B, 0xCD, 0, 5, 0, 0, 0, 1, 0, 0, 0, 2, 0, 5, 0, 1, 0xA0, 0x07, 0, 0, 0, 0, 0, 9]
   \<and> unat (CCFeedbackReport_Len
       \<lparr>Header = \<lparr>Padding = False, Count = 11, Type = 205, Length = 5\<rparr>, SenderSSRC = 1,
        ReportBlocks = [\<lparr>MediaSSRC = 2, BeginSequence = 5,
          MetricBlocks = [\<lparr>Received = True, ECN = 1, ArrivalTimeOffset = 7\<rparr>]\<rparr>],
        ReportTimestamp = 9\<rparr>) = 24
   \<and> CCFeedbackReportBlock_marshal \<lparr>MediaSSRC = 2, BeginSequence = 5,
         MetricBlocks = [\<lparr>Received = True, ECN = 1, ArrivalTimeOffset = 7\<rparr>]\<rparr>
       = Inr [0, 0, 0, 2, 0, 5, 0, 1, 0xA0, 0x07, 0, 0]
   \<and> unat (CCFeedbackReportBlock_Len \<lparr>MediaSSRC = 2, BeginSequence = 5,
         MetricBlocks = [\<lparr>Received = True, ECN = 1, ArrivalTimeOffset = 7\<rparr>]\<rparr>) = 12
   \<and> CCFeedbackMetricBlock_marshal \<lparr>Received = True, ECN = 1, ArrivalTimeOffset = 7\<rparr>
       = Inr [0xA0, 0x07]"
proof -
  let ?mb = "\<lparr>Received = True, ECN = 1, ArrivalTimeOffset = 7\<rparr>"
  let ?blk = "\<lparr>MediaSSRC = 2, BeginSequence = 5, MetricBlocks = [?mb]\<rparr>"
  let ?r = "\<lparr>Header = \<lparr>Padding = False, Count = 11, Type = 205, Length = 5\<rparr>, SenderSSRC = 1,
      ReportBlocks = [?blk], ReportTimestamp = 9\<rparr>"
  let ?wb = "[0, 0, 0, 2, 0, 5, 0, 1, 0xA0, 0x07, 0, 0] :: byte list"
  let ?wr = "[0x8B, 0xCD, 0, 5, 0, 0, 0, 1, 0, 0, 0, 2, 0, 5, 0, 1, 0xA0, 0x07, 0, 0, 0, 0, 0, 9]
               :: byte list"
  have m3: "CCFeedbackMetricBlock_marshal ?mb = Inr [0xA0, 0x07]"
    by (simp add: metric_marshal_eq packed_def bytes16_def mask_eq_exp_minus_1)
  have m2: "CCFeedbackReportBlock_marshal ?blk = Inr ?wb"
    by (simp add: block_marshal_eq maxMetricBlocks_def metric_ok_def wire_block_def
          wire_metric_def packed_def bytes32_def bytes16_def mask_eq_exp_minus_1 replicate_2)
  have l2: "CCFeedbackReportBlock_Len ?blk = 12"
    by (simp add: CCFeedbackReportBlock_Len_def reportsOffset_def)
  have l1: "CCFeedbackReport_Len ?r = 24"
    by (simp add: CCFeedbackReport_Len_def l2 reportBlockOffset_def reportTimestampLength_def)
  have r24: "replicate 24 (0 :: byte) =
      [0, 0, 0, 0, 0, 0, 0, 0, 0, 0, 0, 0, 0, 0, 0, 0, 0, 0, 0, 0, 0, 0, 0, 0]"
    by (simp add: eval_nat_numeral)
  have m1: "CCFeedbackReport_Marshal Header_Marshal ?r = Inr ?wr"
    by (simp add: CCFeedbackReport_Marshal_def Header_Marshal_def l1 l2 r24 m2 copy_prefix_def
          headerLength_def PutUint32_at_def copy_at_def reportBlockOffset_def bytes32_def
          bytes16_def)
  show ?thesis
    using C9_size_consistency [of Header_Marshal ?r ?wr ?blk ?wb ?mb "[0xA0, 0x07]"] m1 m2 m3
    by simp
qed

lemma ApplicationDefined_size_consistency:
  "ApplicationDefined_Marshal a = Inr buf \<Longrightarrow> length buf = ApplicationDefined_MarshalSize a"
  by (auto simp add: ApplicationDefined_Marshal_def ApplicationDefined_MarshalSize_def
        Header_Marshal_def Let_def bytes16_def bytes32_def split: if_splits)

section \<open>The Application-Defined scenario\<close>

text \<open>
  C8.  The 16 bytes \<open>80 cc 00 03 4b aa e1 ab 53 55 49 54 41 42 43 44\<close> decode as an
  Application-Defined packet with SSRC \<open>0x4baae1ab\<close>, the name \<open>SUIT\<close> (the bytes
  \<open>53 55 49 54\<close>) and the data \<open>41 42 43 44\<close>, and encoding that value gives the same
  16 bytes.
\<close>

theorem C8_application_defined_scenario:
  "ApplicationDefined_Unmarshal
     [0x80, 0xCC, 0x00, 0x03, 0x4B, 0xAA, 0xE1, 0xAB, 0x53, 0x55, 0x49, 0x54,
      0x41, 0x42, 0x43, 0x44]
     = Inr \<lparr>SubType = 0, SSRC = 0x4BAAE1AB, Name = map of_char ''SUIT'',
            Data = [0x41, 0x42, 0x43, 0x44]\<rparr>
   \<and> ApplicationDefined_Marshal
       \<lparr>SubType = 0, SSRC = 0x4BAAE1AB, Name = map of_char ''SUIT'',
        Data = [0x41, 0x42, 0x43, 0x44]\<rparr>
     = Inr [0x80, 0xCC, 0x00, 0x03, 0x4B, 0xAA, 0xE1, 0xAB, 0x53, 0x55, 0x49, 0x54,
            0x41, 0x42, 0x43, 0x44]
   \<and> map of_char ''SUIT'' = [0x53, 0x55, 0x49, 0x54 :: byte]"
proof (intro conjI)
  show n: "map of_char ''SUIT'' = [0x53, 0x55, 0x49, 0x54 :: byte]"
    by simp
  show "ApplicationDefined_Unmarshal
     [0x80, 0xCC, 0x00, 0x03, 0x4B, 0xAA, 0xE1, 0xAB, 0x53, 0x55, 0x49, 0x54,
      0x41, 0x42, 0x43, 0x44]
     = Inr \<lparr>SubType = 0, SSRC = 0x4BAAE1AB, Name = map of_char ''SUIT'',
            Data = [0x41, 0x42, 0x43, 0x44]\<rparr>"
    unfolding n
    by (simp add: ApplicationDefined_Unmarshal_def Header_Unmarshal_def headerLength_def
          Uint16_def Uint32_def)
  show "ApplicationDefined_Marshal
       \<lparr>SubType = 0, SSRC = 0x4BAAE1AB, Name = map of_char ''SUIT'',
        Data = [0x41, 0x42, 0x43, 0x44]\<rparr>
     = Inr [0x80, 0xCC, 0x00, 0x03, 0x4B, 0xAA, 0xE1, 0xAB, 0x53, 0x55, 0x49, 0x54,
            0x41, 0x42, 0x43, 0x44]"
    unfolding n
    by (simp add: ApplicationDefined_Marshal_def ApplicationDefined_MarshalSize_def
          getPadding_def Header_Marshal_def TypeApplicationDefined_def bytes16_def bytes32_def)
qed

section \<open>Decoding a report block\<close>

lemma metric_unmarshal_pair:
  "CCFeedbackMetricBlock_unmarshal [x, y] = Inr (metric_of_wire x y)"
  by (simp add: CCFeedbackMetricBlock_unmarshal_def metric_of_wire_def metricBlockLength_def)

lemma slice_range_pair:
  assumes "lo + 2 \<le> length raw"
  shows "slice_range (raw, spare) lo (lo + 2)
           = Inr ([raw ! lo, raw ! (lo + 1)], drop (lo + 2) (raw @ spare))"
proof -
  from assms have "lo < length raw" "Suc lo < length raw" by simp_all
  then have "drop lo raw = raw ! lo # raw ! (lo + 1) # drop (lo + 2) raw"
    by (simp add: Cons_nth_drop_Suc)
  then have "take 2 (drop lo (raw @ spare)) = [raw ! lo, raw ! (lo + 1)]"
    using assms by (simp add: numeral_2_eq_2)
  then show ?thesis using assms by (simp add: slice_range_def)
qed

lemma unat_metric_offset:
  assumes "unat i \<le> 32762"
  shows "unat (of_nat reportsOffset + 2 * i :: 16 word) = reportsOffset + 2 * unat i"
    and "unat (of_nat reportsOffset + 2 * i + 2 :: 16 word) = reportsOffset + 2 * unat i + 2"
  using assms by (simp_all add: reportsOffset_def unat_word_ariths)

lemma unat_Suc_word16:
  "(i :: 16 word) < n \<Longrightarrow> unat (i + 1) = Suc (unat i)"
proof -
  assume "i < n"
  then have "unat i < unat n" by (simp add: word_less_nat_alt)
  moreover have "unat n < 2 ^ 16" using unsigned_less [of n, where 'a = nat] by simp
  ultimately show ?thesis by (simp add: unat_word_ariths)
qed

lemma unmarshal_metrics_eq:
  assumes "reportsOffset + 2 * unat numReports \<le> length raw"
    and "unat numReports \<le> 32763"
    and "length mbs = unat numReports"
    and "i \<le> numReports"
  shows "unmarshal_metrics (raw, spare) numReports i mbs =
           Inr (take (unat i) mbs @ drop (unat i) (metrics_of_wire raw (unat numReports)))"
  using assms(3,4)
proof (induction "unat numReports - unat i" arbitrary: i mbs)
  case 0
  then have "i = numReports" by (simp add: word_le_nat_alt word_unat_eq_iff)
  then show ?case using "0.prems"
    by (subst unmarshal_metrics.simps) (simp add: metrics_of_wire_def)
next
  case (Suc d)
  then have lt: "i < numReports" by (simp add: word_less_nat_alt)
  then have ui: "unat i < unat numReports" by (simp add: word_less_nat_alt)
  with assms(2) have i: "unat i \<le> 32762" by simp
  note off = unat_metric_offset [OF i]
  let ?lo = "reportsOffset + 2 * unat i"
  let ?mb = "metric_of_wire (raw ! ?lo) (raw ! (?lo + 1))"
  from ui assms(1) have fit: "?lo + 2 \<le> length raw" by simp
  have s: "slice_range (raw, spare) (unat (of_nat reportsOffset + 2 * i :: 16 word))
             (unat (of_nat reportsOffset + 2 * i + 2 :: 16 word))
           = Inr ([raw ! ?lo, raw ! (?lo + 1)], drop (?lo + 2) (raw @ spare))"
    unfolding off by (rule slice_range_pair [OF fit])
  have u: "unat (i + 1) = Suc (unat i)" by (rule unat_Suc_word16 [OF lt])
  have step: "unmarshal_metrics (raw, spare) numReports i mbs
                = unmarshal_metrics (raw, spare) numReports (i + 1) (mbs[unat i := ?mb])"
    by (subst unmarshal_metrics.simps) (simp add: lt Let_def s metric_unmarshal_pair)
  have d: "d = unat numReports - unat (i + 1)" using Suc.hyps(2) u by simp
  have le: "i + 1 \<le> numReports" using ui u by (simp add: word_le_nat_alt)
  have ih: "unmarshal_metrics (raw, spare) numReports (i + 1) (mbs[unat i := ?mb])
              = Inr (take (unat (i + 1)) (mbs[unat i := ?mb])
                       @ drop (unat (i + 1)) (metrics_of_wire raw (unat numReports)))"
    by (rule Suc.hyps(1) [OF d]) (simp_all add: Suc.prems le)
  have k: "metrics_of_wire raw (unat numReports) ! unat i = ?mb"
    using ui by (simp add: metrics_of_wire_def)
  have lw: "length (metrics_of_wire raw (unat numReports)) = unat numReports"
    by (simp add: metrics_of_wire_def)
  have "take (unat (i + 1)) (mbs[unat i := ?mb]) = take (unat i) mbs @ [?mb]"
    using ui Suc.prems(1) unfolding u by (simp add: take_Suc_conv_app_nth)
  moreover have "drop (unat i) (metrics_of_wire raw (unat numReports))
                   = ?mb # drop (unat (i + 1)) (metrics_of_wire raw (unat numReports))"
    unfolding u using ui lw k by (metis Cons_nth_drop_Suc)
  ultimately show ?case unfolding step ih by simp
qed


lemma unat_wire_size:
  assumes "unat (n :: 16 word) \<le> 32763"
  shows "int len < uint (of_nat reportsOffset + n * 2) \<longleftrightarrow> len < reportsOffset + 2 * unat n"
proof -
  have "unat (of_nat reportsOffset + n * 2) = reportsOffset + 2 * unat n"
    using assms by (simp add: reportsOffset_def unat_word_ariths)
  then have "uint (of_nat reportsOffset + n * 2) = int (reportsOffset + 2 * unat n)"
    by (simp only: uint_nat)
  then show ?thesis by (simp only: of_nat_less_iff)
qed


lemma block_unmarshal_eq:
  assumes "reportsOffset \<le> length raw"
    and "unat (Uint16 (drop numReportsOffset raw)) \<le> 32763"
  shows "CCFeedbackReportBlock_unmarshal (raw, spare) =
           (if length raw < reportsOffset + 2 * unat (Uint16 (drop numReportsOffset raw))
            then Inl (Err errIncorrectNumReports)
            else Inr \<lparr>MediaSSRC = Uint32 (take beginSequenceOffset raw),
                      BeginSequence = Uint16 (take (numReportsOffset - beginSequenceOffset)
                                               (drop beginSequenceOffset raw)),
                      MetricBlocks = metrics_of_wire raw
                                       (unat (Uint16 (drop numReportsOffset raw)))\<rparr>)"
proof -
  let ?n = "Uint16 (drop numReportsOffset raw)"
  note sz = unat_wire_size [OF assms(2)]
  show ?thesis
  proof (cases "length raw < reportsOffset + 2 * unat ?n")
    case True
    then show ?thesis using assms(1)
      by (simp add: CCFeedbackReportBlock_unmarshal_def Let_def sz)
  next
    case False
    then have fit: "reportsOffset + 2 * unat ?n \<le> length raw" by simp
    have "unmarshal_metrics (raw, spare) ?n 0
            (replicate (unat ?n) \<lparr>Received = False, ECN = 0, ArrivalTimeOffset = 0\<rparr>)
          = Inr (metrics_of_wire raw (unat ?n))"
      using unmarshal_metrics_eq [OF fit assms(2), of _ 0 spare] by simp
    then show ?thesis using assms(1) False
      by (simp add: CCFeedbackReportBlock_unmarshal_def Let_def sz)
  qed
qed

lemma slice_range_Inr_length:
  "slice_range s lo (lo + 2) = Inr t \<Longrightarrow> length (fst t) = 2"
  by (auto simp add: slice_range_def split: if_splits)

lemma unmarshal_metrics_wraps:
  assumes "32764 \<le> unat numReports" and "unat i \<le> 32763"
  shows "unmarshal_metrics s numReports i mbs = Inl Panic"
  using assms(2)
proof (induction "32763 - unat i" arbitrary: i mbs)
  case 0
  then have "unat i = 32763" by simp
  then have i: "i = 32763" by (simp add: word_unat_eq_iff)
  have lt: "i < numReports" using assms(1) unfolding i by (simp add: word_less_nat_alt)
  have "slice_range s (unat (of_nat reportsOffset + 2 * i :: 16 word))
           (unat (of_nat reportsOffset + 2 * i + 2 :: 16 word)) = Inl Panic"
    unfolding i by (simp add: reportsOffset_def slice_range_def)
  then show ?case by (subst unmarshal_metrics.simps) (simp add: lt Let_def)
next
  case (Suc d)
  then have ui: "unat i \<le> 32762" by simp
  with assms(1) have lt: "i < numReports" by (simp add: word_less_nat_alt)
  note off = unat_metric_offset [OF ui]
  have u: "unat (i + 1) = Suc (unat i)" by (rule unat_Suc_word16 [OF lt])
  have ih: "unmarshal_metrics s numReports (i + 1) mbs' = Inl Panic" for mbs'
    using Suc.hyps(2) ui u by (intro Suc.hyps(1)) simp_all
  show ?case
  proof (cases "slice_range s (reportsOffset + 2 * unat i) (reportsOffset + 2 * unat i + 2)")
    case (Inl e)
    then have "e = Panic" by (simp add: slice_range_def split: if_splits)
    with Inl show ?thesis by (subst unmarshal_metrics.simps) (simp add: lt Let_def off)
  next
    case (Inr t)
    then have "length (fst t) = 2" by (rule slice_range_Inr_length)
    then obtain x y where "fst t = [x, y]"
      by (metis (no_types, opaque_lifting) One_nat_def Suc_1 length_0_conv length_Suc_conv)
    with Inr show ?thesis
      by (subst unmarshal_metrics.simps) (simp add: lt Let_def off metric_unmarshal_pair ih)
  qed
qed

lemma block_unmarshal_wraps:
  assumes "reportsOffset \<le> length raw"
    and "32764 \<le> unat (Uint16 (drop numReportsOffset raw))"
  shows "CCFeedbackReportBlock_unmarshal (raw, spare) =
           (if int (length raw) < uint (of_nat reportsOffset + Uint16 (drop numReportsOffset raw) * 2)
            then Inl (Err errIncorrectNumReports) else Inl Panic)"
  using assms(1)
  by (simp add: CCFeedbackReportBlock_unmarshal_def Let_def unmarshal_metrics_wraps [OF assms(2)])

section \<open>The wrapped length check\<close>

text \<open>
  C3 (the code departs from the claim).  A block of 8 bytes that declares \<open>0x8000\<close> metric
  blocks holds none of the 65536 bytes it promises.  In \<open>reportsOffset+numReports*2\<close> the
  product is a \<open>uint16\<close> and wraps around to 0, the length check passes, 32768 metric blocks
  are allocated, and the decoder panics on a slice expression out of range, whatever the
  capacity of the buffer is.
\<close>

theorem C3_wrapped_count_panics:
  "CCFeedbackReportBlock_unmarshal ([0, 0, 0, 0, 0, 0, 0x80, 0x00], spare) = Inl Panic"
proof -
  have n: "Uint16 (drop numReportsOffset [0, 0, 0, 0, 0, 0, 0x80, 0x00]) = 0x8000"
    by (simp add: numReportsOffset_def Uint16_def)
  have "CCFeedbackReportBlock_unmarshal ([0, 0, 0, 0, 0, 0, 0x80, 0x00], spare) =
          (if int (length [0, 0, 0, 0, 0, 0, 0x80, 0x00 :: byte])
                < uint (of_nat reportsOffset
                          + Uint16 (drop numReportsOffset [0, 0, 0, 0, 0, 0, 0x80, 0x00]) * 2)
           then Inl (Err errIncorrectNumReports) else Inl Panic)"
    by (rule block_unmarshal_wraps) (simp_all add: reportsOffset_def n)
  then show ?thesis by (simp add: n reportsOffset_def)
qed

section \<open>Decoding an encoded report block\<close>

lemma Uint32_bytes32_append: "Uint32 (bytes32 v @ rest) = v"
proof -
  have "(bytes32 v @ rest) ! 0 = ucast (drop_bit 24 v)" "(bytes32 v @ rest) ! 1 = ucast (drop_bit 16 v)"
    "(bytes32 v @ rest) ! 2 = ucast (drop_bit 8 v)" "(bytes32 v @ rest) ! 3 = ucast v"
    by (simp_all add: bytes32_def)
  then have u: "Uint32 (bytes32 v @ rest) =
      push_bit 24 (ucast (ucast (drop_bit 24 v) :: byte))
        OR push_bit 16 (ucast (ucast (drop_bit 16 v) :: byte))
        OR push_bit 8 (ucast (ucast (drop_bit 8 v) :: byte)) OR ucast (ucast v :: byte)"
    by (simp only: Uint32_def)
  show ?thesis
    unfolding u
  proof (rule bit_word_eqI)
    fix n
    assume "n < LENGTH(32)"
    then consider "n < 8" | "8 \<le> n" "n < 16" | "16 \<le> n" "n < 24" | "24 \<le> n" "n < 32"
      by fastforce
    then show "bit (push_bit 24 (ucast (ucast (drop_bit 24 v) :: byte))
        OR push_bit 16 (ucast (ucast (drop_bit 16 v) :: byte))
        OR push_bit 8 (ucast (ucast (drop_bit 8 v) :: byte)) OR ucast (ucast v :: byte) :: 32 word) n
        = bit v n"
      by cases (auto simp add: bit_simps)
  qed
qed

lemma metric_of_wire_wire:
  assumes "metric_ok m"
  shows "metric_of_wire (wire_metric m ! 0) (wire_metric m ! 1) = canonical m"
proof -
  from assms have r: "ECN m \<le> 3" "ArrivalTimeOffset m \<le> 8191" by (simp_all add: metric_ok_def)
  have "wire_metric m = [wire_metric m ! 0, wire_metric m ! 1]"
    by (simp add: wire_metric_def bytes16_def)
  then have "CCFeedbackMetricBlock_unmarshal (wire_metric m)
               = Inr (metric_of_wire (wire_metric m ! 0) (wire_metric m ! 1))"
    by (metis metric_unmarshal_pair)
  moreover have "CCFeedbackMetricBlock_unmarshal (wire_metric m) = Inr (canonical m)"
    unfolding wire_metric_def metric_unmarshal_packed [OF r]
    by (cases m) (simp add: canonical_def ECNNonECT_def)
  ultimately show ?thesis by simp
qed

lemma concat_wire_nth:
  "k < length ms \<Longrightarrow>
     concat (map wire_metric ms) ! (2 * k) = wire_metric (ms ! k) ! 0
     \<and> concat (map wire_metric ms) ! (2 * k + 1) = wire_metric (ms ! k) ! 1"
proof (induction ms arbitrary: k)
  case Nil
  then show ?case by simp
next
  case (Cons m ms)
  show ?case
  proof (cases k)
    case 0
    then show ?thesis by (simp add: nth_append length_wire_metric)
  next
    case (Suc j)
    with Cons.prems have "j < length ms" by simp
    from Cons.IH [OF this] show ?thesis
      by (simp add: Suc nth_append length_wire_metric)
  qed
qed

lemma metrics_of_wire_nth:
  "k < n \<Longrightarrow>
     metrics_of_wire raw n ! k =
       metric_of_wire (raw ! (reportsOffset + 2 * k)) (raw ! (reportsOffset + 2 * k + 1))"
  by (simp add: metrics_of_wire_def)

lemma metrics_of_wire_wire:
  assumes "length h = reportsOffset" and "list_all metric_ok ms"
  shows "metrics_of_wire (h @ concat (map wire_metric ms) @ rest) (length ms) = map canonical ms"
proof (rule nth_equalityI)
  show "length (metrics_of_wire (h @ concat (map wire_metric ms) @ rest) (length ms))
          = length (map canonical ms)"
    by (simp add: metrics_of_wire_def)
next
  fix k
  assume "k < length (metrics_of_wire (h @ concat (map wire_metric ms) @ rest) (length ms))"
  then have k: "k < length ms" by (simp add: metrics_of_wire_def)
  then have in1: "2 * k < length (concat (map wire_metric ms))"
    and in2: "2 * k + 1 < length (concat (map wire_metric ms))"
    by (simp_all add: length_concat_wire)
  have x: "(h @ concat (map wire_metric ms) @ rest) ! (reportsOffset + 2 * k)
          = concat (map wire_metric ms) ! (2 * k)"
    using in1 assms(1) by (simp add: nth_append)
  have y: "(h @ concat (map wire_metric ms) @ rest) ! (reportsOffset + 2 * k + 1)
          = concat (map wire_metric ms) ! (2 * k + 1)"
    using in2 assms(1) by (simp add: nth_append)
  from assms(2) k have ok: "metric_ok (ms ! k)" by (simp add: list_all_length)
  have "metrics_of_wire (h @ concat (map wire_metric ms) @ rest) (length ms) ! k
          = canonical (ms ! k)"
    by (simp only: metrics_of_wire_nth [OF k] x y concat_wire_nth [OF k]
          metric_of_wire_wire [OF ok])
  then show "metrics_of_wire (h @ concat (map wire_metric ms) @ rest) (length ms) ! k
               = map canonical ms ! k"
    using k by simp
qed

lemma block_unmarshal_wire:
  assumes "length (MetricBlocks b) \<le> maxMetricBlocks" and "list_all metric_ok (MetricBlocks b)"
  shows "CCFeedbackReportBlock_unmarshal
           (take (reportsOffset + 2 * length (MetricBlocks b)) (wire_block b) @ rest, spare)
         = Inr \<lparr>MediaSSRC = MediaSSRC b, BeginSequence = BeginSequence b,
                MetricBlocks = map canonical (MetricBlocks b)\<rparr>"
proof -
  let ?n = "length (MetricBlocks b)"
  let ?h = "bytes32 (MediaSSRC b) @ bytes16 (BeginSequence b) @ bytes16 (of_nat ?n)"
  let ?c = "concat (map wire_metric (MetricBlocks b))"
  let ?raw = "?h @ ?c @ rest"
  have lh: "length ?h = reportsOffset" by (simp add: bytes32_def bytes16_def reportsOffset_def)
  have "wire_block b = (?h @ ?c) @ replicate (if ?n mod 2 \<noteq> 0 then 2 else 0) 0"
    by (simp add: wire_block_def)
  moreover have "length (?h @ ?c) = reportsOffset + 2 * ?n"
    using lh by (simp add: length_concat_wire del: append_assoc)
  ultimately have raw: "take (reportsOffset + 2 * ?n) (wire_block b) @ rest = ?raw"
    by (simp del: append_assoc)
  have cnt: "Uint16 (drop numReportsOffset ?raw) = of_nat ?n"
    by (simp add: numReportsOffset_def bytes32_def bytes16_nth(3) Uint16_bytes16_append)
  have "unat (of_nat ?n :: 16 word) = ?n"
    using assms(1) by (intro unat_of_nat_16) (simp add: maxMetricBlocks_def)
  then have n: "unat (Uint16 (drop numReportsOffset ?raw)) = ?n" by (simp only: cnt)
  have len: "length ?raw = reportsOffset + 2 * ?n + length rest"
    using lh by (simp add: length_concat_wire)
  have ssrc: "Uint32 (take beginSequenceOffset ?raw) = MediaSSRC b"
    using Uint32_bytes32_append [of "MediaSSRC b" "[]"]
    by (simp add: beginSequenceOffset_def bytes32_def)
  have seq: "Uint16 (take (numReportsOffset - beginSequenceOffset) (drop beginSequenceOffset ?raw))
               = BeginSequence b"
    using Uint16_bytes16 [of "BeginSequence b"]
    by (simp add: beginSequenceOffset_def numReportsOffset_def bytes32_def bytes16_def)
  have "CCFeedbackReportBlock_unmarshal (?raw, spare) =
          Inr \<lparr>MediaSSRC = Uint32 (take beginSequenceOffset ?raw),
               BeginSequence = Uint16 (take (numReportsOffset - beginSequenceOffset)
                                         (drop beginSequenceOffset ?raw)),
               MetricBlocks = metrics_of_wire ?raw ?n\<rparr>"
    using assms(1) by (subst block_unmarshal_eq) (simp_all only: n len, simp_all add: maxMetricBlocks_def)
  then show ?thesis
    unfolding raw ssrc seq metrics_of_wire_wire [OF lh assms(2)] .
qed


text \<open>
  C6 (as stated, refuted).  \<open>Len\<close> returns a \<open>uint16\<close>.  For a block with 32764 metric
  blocks, an even count, the length \<open>8 + 2 * 32764 = 65536\<close> wraps around and \<open>Len\<close>
  returns 0.
\<close>

theorem C6_block_length_counterexample:
  "length (MetricBlocks \<lparr>MediaSSRC = 0, BeginSequence = 0,
       MetricBlocks = replicate 32764 \<lparr>Received = False, ECN = 0, ArrivalTimeOffset = 0\<rparr>\<rparr>)
     = 32764
   \<and> unat (CCFeedbackReportBlock_Len \<lparr>MediaSSRC = 0, BeginSequence = 0,
       MetricBlocks = replicate 32764 \<lparr>Received = False, ECN = 0, ArrivalTimeOffset = 0\<rparr>\<rparr>)
     = 0
   \<and> 8 + 2 * 32764 \<noteq> (0 :: nat)"
  by (simp add: CCFeedbackReportBlock_Len_def reportsOffset_def)

text \<open>
  C6 (amended).  For a report block with \<open>n\<close> metric blocks, \<open>n\<close> at most 32762, \<open>Len\<close>
  returns \<open>8 + 2 * n\<close> when \<open>n\<close> is even and \<open>8 + 2 * (n + 1)\<close> when \<open>n\<close> is odd.  Whenever
  \<open>marshal\<close> succeeds (which needs \<open>n \<le> 16384\<close>) the buffer has exactly that many bytes.
  Decoding its first \<open>8 + 2 * n\<close> bytes, followed by any bytes at all in place of the
  padding slot, gives a block with the same SSRC and begin sequence and exactly \<open>n\<close> metric
  blocks: the encoded ones, with ECN and offset zeroed where the block is not received.
\<close>

theorem C6_block_wire_length:
  fixes b :: CCFeedbackReportBlock
  shows "(length (MetricBlocks b) \<le> 32762 \<longrightarrow>
            unat (CCFeedbackReportBlock_Len b) =
              8 + 2 * (if length (MetricBlocks b) mod 2 \<noteq> 0 then length (MetricBlocks b) + 1
                       else length (MetricBlocks b)))
       \<and> (CCFeedbackReportBlock_marshal b = Inr buf \<longrightarrow>
            length buf = unat (CCFeedbackReportBlock_Len b)
            \<and> length buf =
                8 + 2 * (if length (MetricBlocks b) mod 2 \<noteq> 0 then length (MetricBlocks b) + 1
                         else length (MetricBlocks b))
            \<and> (\<exists>b'. CCFeedbackReportBlock_unmarshal
                        (take (8 + 2 * length (MetricBlocks b)) buf @ rest, spare) = Inr b'
                    \<and> length (MetricBlocks b') = length (MetricBlocks b)
                    \<and> b' = \<lparr>MediaSSRC = MediaSSRC b, BeginSequence = BeginSequence b,
                             MetricBlocks = map canonical (MetricBlocks b)\<rparr>))"
proof (intro conjI impI)
  assume "length (MetricBlocks b) \<le> 32762"
  then show "unat (CCFeedbackReportBlock_Len b) =
              8 + 2 * (if length (MetricBlocks b) mod 2 \<noteq> 0 then length (MetricBlocks b) + 1
                       else length (MetricBlocks b))"
    by (rule unat_block_Len)
next
  assume m: "CCFeedbackReportBlock_marshal b = Inr buf"
  then have n: "length (MetricBlocks b) \<le> maxMetricBlocks"
    and ok: "list_all metric_ok (MetricBlocks b)" and buf: "buf = wire_block b"
    by (simp_all add: block_marshal_eq split: if_splits)
  show "length buf = unat (CCFeedbackReportBlock_Len b)"
    using m by (rule length_block_marshal)
  show "length buf =
          8 + 2 * (if length (MetricBlocks b) mod 2 \<noteq> 0 then length (MetricBlocks b) + 1
                   else length (MetricBlocks b))"
    unfolding buf by (rule length_wire_block)
  have "CCFeedbackReportBlock_unmarshal
          (take (8 + 2 * length (MetricBlocks b)) buf @ rest, spare)
        = Inr \<lparr>MediaSSRC = MediaSSRC b, BeginSequence = BeginSequence b,
               MetricBlocks = map canonical (MetricBlocks b)\<rparr>"
    using block_unmarshal_wire [OF n ok, of rest spare] by (simp add: buf reportsOffset_def)
  then show "\<exists>b'. CCFeedbackReportBlock_unmarshal
                        (take (8 + 2 * length (MetricBlocks b)) buf @ rest, spare) = Inr b'
                    \<and> length (MetricBlocks b') = length (MetricBlocks b)
                    \<and> b' = \<lparr>MediaSSRC = MediaSSRC b, BeginSequence = BeginSequence b,
                             MetricBlocks = map canonical (MetricBlocks b)\<rparr>"
    by simp
qed

theorem C6_block_wire_length_witness:
  "length (MetricBlocks \<lparr>MediaSSRC = 2, BeginSequence = 5,
       MetricBlocks = [\<lparr>Received = True, ECN = 1, ArrivalTimeOffset = 7\<rparr>]\<rparr>) \<le> 32762
   \<and> CCFeedbackReportBlock_marshal \<lparr>MediaSSRC = 2, BeginSequence = 5,
         MetricBlocks = [\<lparr>Received = True, ECN = 1, ArrivalTimeOffset = 7\<rparr>]\<rparr>
       = Inr [0, 0, 0, 2, 0, 5, 0, 1, 0xA0, 0x07, 0, 0]
   \<and> unat (CCFeedbackReportBlock_Len \<lparr>MediaSSRC = 2, BeginSequence = 5,
         MetricBlocks = [\<lparr>Received = True, ECN = 1, ArrivalTimeOffset = 7\<rparr>]\<rparr>) = 12
   \<and> CCFeedbackReportBlock_unmarshal
         ([0, 0, 0, 2, 0, 5, 0, 1, 0xA0, 0x07, 0xFF, 0xFF], [])
       = Inr \<lparr>MediaSSRC = 2, BeginSequence = 5,
              MetricBlocks = [\<lparr>Received = True, ECN = 1, ArrivalTimeOffset = 7\<rparr>]\<rparr>"
proof -
  let ?blk = "\<lparr>MediaSSRC = 2, BeginSequence = 5,
         MetricBlocks = [\<lparr>Received = True, ECN = 1, ArrivalTimeOffset = 7\<rparr>]\<rparr>"
  let ?wb = "[0, 0, 0, 2, 0, 5, 0, 1, 0xA0, 0x07, 0, 0] :: byte list"
  have m: "CCFeedbackReportBlock_marshal ?blk = Inr ?wb"
    by (simp add: block_marshal_eq maxMetricBlocks_def metric_ok_def wire_block_def
          wire_metric_def packed_def bytes32_def bytes16_def mask_eq_exp_minus_1 replicate_2)
  show ?thesis
    using C6_block_wire_length [of ?blk ?wb "[0xFF, 0xFF]" "[]"] m
    by (simp add: canonical_def)
qed

section \<open>Decoding a report\<close>









section \<open>The bytes of an encoded report\<close>











section \<open>Decoding a truncated report\<close>




lemma block_Len_cong:
  "length (MetricBlocks b') = length (MetricBlocks b) \<Longrightarrow>
     CCFeedbackReportBlock_Len b' = CCFeedbackReportBlock_Len b"
  by (simp add: CCFeedbackReportBlock_Len_def)











text \<open>
  The rejection of a packet that was cut at 12 bytes or later is the header decoder's: the
  checks of \<open>CCFeedbackReport.Unmarshal\<close> themselves let such a packet pass.  With a
  header decoder that accepts every buffer, the packet above without its timestamp still
  decodes, and the two bytes of its metric block and of the padding are read as the timestamp.
\<close>

lemma truncation_accepted_without_length_check:
  "CCFeedbackReport_Unmarshal (\<lambda>raw. Inr ())
     (take 20
        [0x8B, 0xCD, 0, 5, 0, 0, 0, 1, 0, 0, 0, 2, 0, 5, 0, 1, 0xA0, 0x07, 0, 0, 0, 0, 0, 9], [])
   = Some (Inr \<lparr>Header = (), SenderSSRC = 1,
                ReportBlocks = [\<lparr>MediaSSRC = 2, BeginSequence = 5,
                  MetricBlocks = [\<lparr>Received = True, ECN = 1, ArrivalTimeOffset = 7\<rparr>]\<rparr>],
                ReportTimestamp = 0xA0070000\<rparr>)"
  by code_simp

text \<open>
  The wrapped length check of a report block is reached from \<open>Unmarshal\<close>: a packet of 20
  bytes whose only report block declares \<open>0x8000\<close> metric blocks makes the decoder panic.
\<close>

lemma report_unmarshal_can_panic:
  "CCFeedbackReport_Unmarshal Header_Unmarshal
     ([0x8B, 0xCD, 0, 4, 0, 0, 0, 1, 0, 0, 0, 2, 0, 5, 0x80, 0x00, 0, 0, 0, 9], spare)
   = Some (Inl Panic)"
proof -
  let ?raw = "[0x8B, 0xCD, 0, 4, 0, 0, 0, 1, 0, 0, 0, 2, 0, 5, 0x80, 0x00, 0, 0, 0, 9] :: byte list"
  let ?s = "[0, 0, 0, 2, 0, 5, 0x80, 0x00, 0, 0, 0, 9] :: byte list"
  have n: "Uint16 (drop numReportsOffset ?s) = 0x8000"
    by (simp add: numReportsOffset_def Uint16_def)
  have "CCFeedbackReportBlock_unmarshal (?s, spare) =
          (if int (length ?s) < uint (of_nat reportsOffset + Uint16 (drop numReportsOffset ?s) * 2)
           then Inl (Err errIncorrectNumReports) else Inl Panic)"
    by (rule block_unmarshal_wraps) (simp_all add: reportsOffset_def n)
  then have b: "CCFeedbackReportBlock_unmarshal (?s, spare) = Inl Panic"
    by (simp add: n reportsOffset_def)
  have l: "unmarshal_blocks (?raw, spare) 16 8 [] = Some (Inl Panic)"
    by (subst unmarshal_blocks.simps) (simp add: slice_from_def b)
  have hd: "Header_Unmarshal ?raw = Inr \<lparr>Padding = False, Count = 11, Type = 205, Length = 4\<rparr>"
    by (simp add: Header_Unmarshal_def headerLength_def Uint16_def bit_iff_odd_drop_bit)
  show ?thesis
    by (simp add: CCFeedbackReport_Unmarshal_def headerLength_def ssrcLength_def
          reportTimestampLength_def reportBlockOffset_def hd Uint32_at_def l)
qed

section \<open>Buffers beyond 16 bits\<close>

text \<open>
  \<open>reportTimestampOffset\<close> is \<open>uint16(len(rawPacket) - reportTimestampLength)\<close>: the
  position of the timestamp modulo 65536.  From 65540 bytes on it is no longer the position
  4 bytes from the end of the buffer.  The offset of the loop is a \<open>uint16\<close> as well, and
  from 65534 bytes on a block that ends at the end of the buffer can take it around to 0.
\<close>

lemma timestamp_offset_wraps:
  "unat (of_nat (n - reportTimestampLength) :: 16 word) = (n - reportTimestampLength) mod 65536"
  by (simp add: unsigned_of_nat take_bit_eq_mod)

lemma timestamp_offset_65540:
  "unat (of_nat (65540 - reportTimestampLength) :: 16 word) = 0"
  by (simp add: reportTimestampLength_def)

end
